theory Spec2Isabelle
  imports Complex_Main "HOL-Library.Word" "HOL-Library.Log_Nat"
begin

section \<open>The PvPool reconciler (controllers/pvpool\_controller.go)\<close>

text \<open>
  A shallow embedding of the reconcile pass of the PvPool operator. Every call that leaves
  the process (the Kubernetes API client, the HTTP calls to the storage agents) is answered
  by an environment \<open>env\<close> and recorded, in order, in a trace of events that the functions
  pass along. The replies of the agents may depend on the trace so far, so an agent may
  answer two calls of one pass differently.
\<close>

subsection \<open>Data\<close>

type_synonym int32 = "32 word"
type_synonym int64 = "64 word"

text \<open>\<open>PvPodStatus\<close> is a string type: the state reported by an agent is converted to it
  unchanged (\<open>pvpoolv1.PvPodStatus(agentStatus.State)\<close>).\<close>

type_synonym PvPodStatus = string

definition PvPodStatusUnknown :: PvPodStatus where
  \<comment> \<open>Modelled from the spec: the constants of package api/v1 are declared outside the
      controller; the spec names the pod states Unknown, Ready, Decommissioning,
      Decommissioned.\<close>
  "PvPodStatusUnknown = ''Unknown''"

definition PvPodStatusReady :: PvPodStatus where
  \<comment> \<open>Modelled from the spec: see \<open>PvPodStatusUnknown\<close>.\<close>
  "PvPodStatusReady = ''Ready''"

definition PvPodStatusDecommissioning :: PvPodStatus where
  \<comment> \<open>Modelled from the spec: see \<open>PvPodStatusUnknown\<close>.\<close>
  "PvPodStatusDecommissioning = ''Decommissioning''"

definition PvPodStatusDecommissioned :: PvPodStatus where
  \<comment> \<open>Modelled from the spec: see \<open>PvPodStatusUnknown\<close>.\<close>
  "PvPodStatusDecommissioned = ''Decommissioned''"

text \<open>Modelled from the spec: the phase of a pool is one of Unknown, Scaling, Ready; the
  controller only assigns these constants and compares with \<open>PvPoolPhaseReady\<close>.\<close>

datatype PvPoolPhase = PvPoolPhaseUnknown | PvPoolPhaseScaling | PvPoolPhaseReady

text \<open>The types of package api/v1 are declared outside the controller; the records below
  have the fields that the controller reads and writes.\<close>

record PvPodSInfo =
  PodName :: string
  PodStatus :: PvPodStatus

text \<open>\<open>Used\<close> is a Go \<open>int\<close>; \<open>None\<close> stands for a value that the language leaves to the
  implementation (see \<open>percent\<close>).\<close>

record PvPoolStatus =
  Phase :: PvPoolPhase
  CountByState :: "PvPodStatus \<rightharpoonup> int32"
  PodsInfo :: "PvPodSInfo list"
  Used :: "int option"

record PvPoolSpec =
  Image :: string
  NumPVs :: int32
  PvSizeGB :: int32
  StorageClass :: string

record PvPool =
  pvpName :: string
  pvpNamespace :: string
  Spec :: PvPoolSpec
  Status :: PvPoolStatus

record Service =
  srvName :: string
  srvNamespace :: string
  srvSelector :: string
  srvPort :: nat

text \<open>\<open>stsReplicas\<close> is \<open>*sts.Spec.Replicas\<close>: the pointer is set by
  \<open>newStatefulsetForPvPool\<close> and by the defaulting of apps/v1 on every object read from the
  API, so it is taken as present.\<close>

record StatefulSet =
  stsName :: string
  stsNamespace :: string
  stsReplicas :: int32
  stsServiceName :: string
  stsImage :: string
  stsVolumeBytes :: int64

record Pod =
  podName :: string
  podNamespace :: string
  podSubdomain :: string

record storageAgentStatus =
  agentName :: string
  Total :: int64
  agentUsed :: int64
  State :: string

datatype error =
    NotFound
  | APIError
  | TransportError
  | UnexpectedStatusCode nat
  | BodyError
  | NumError

text \<open>What \<open>agentClient.Do\<close> gives: a transport failure (no connection, timeout), or a
  response with its status code and its body, \<open>None\<close> when the body cannot be read or is
  not the JSON of a \<open>storageAgentStatus\<close>. A request that \<open>http.NewRequest\<close> cannot
  build counts as a transport failure: the caller only sees the error.\<close>

datatype http_result = DoFailed | Response nat "storageAgentStatus option"

datatype event =
    GetPvPool
  | GetService string
  | CreateService Service
  | GetStatefulSet string
  | CreateStatefulSet StatefulSet
  | UpdateStatefulSet StatefulSet
  | ListPods
  | UpdateStatus PvPoolStatus
  | HttpGet string
  | HttpPut string

text \<open>The answers of the world to one pass: the result of each call of the API client,
  which the pass makes at most once, and the answers of the agents to a GET and to a PUT at
  a URL, given the trace so far (\<open>agentPut\<close> tells whether the request was delivered).\<close>

record env =
  apiGetPvPool :: "error + PvPool"
  apiGetService :: "error + Service"
  apiCreateService :: "error option"
  apiGetStatefulSet :: "error + StatefulSet"
  apiCreateStatefulSet :: "error option"
  apiListPods :: "error + Pod list"
  apiUpdateStatefulSet :: "error option"
  apiUpdateStatus :: "error option"
  agentGet :: "event list \<Rightarrow> string \<Rightarrow> http_result"
  agentPut :: "event list \<Rightarrow> string \<Rightarrow> bool"

text \<open>\<open>ctrl.Result\<close>; \<open>RequeueAfter\<close> is a \<open>time.Duration\<close>, in nanoseconds.\<close>

record Result =
  RequeueAfter :: int

definition Second :: int where
  "Second = 1000000000"

definition storageAgentPort :: string where
  "storageAgentPort = ''8080''"

subsection \<open>Results of a reconcile request\<close>

definition doNotRequeue :: "Result \<times> error option" where
  "doNotRequeue = (\<lparr>RequeueAfter = 0\<rparr>, None)"

definition requeueAfterSeconds :: "int \<Rightarrow> Result \<times> error option" where
  "requeueAfterSeconds seconds = (\<lparr>RequeueAfter = seconds * Second\<rparr>, None)"

definition requeueWithError :: "error option \<Rightarrow> Result \<times> error option" where
  "requeueWithError err = (\<lparr>RequeueAfter = 3 * Second\<rparr>, err)"

subsection \<open>float64 arithmetic of \<open>percent\<close>\<close>

text \<open>
  IEEE 754 binary64 with round to nearest, ties to even, on the rationals: a value other
  than 0 is \<open>m * 2^e\<close> with \<open>2^52 \<le> m < 2^53\<close>. The exponent is not bounded here: the
  values of \<open>percent\<close> are quotients of integers below \<open>2^70\<close> in magnitude, far inside the
  normal range of binary64.
\<close>

definition pow2 :: "int \<Rightarrow> rat" where
  "pow2 e = (if 0 \<le> e then 2 ^ nat e else 1 / 2 ^ nat (- e))"

definition round_half_even :: "rat \<Rightarrow> int" where
  "round_half_even x =
     (let f = \<lfloor>x\<rfloor>; d = x - of_int f
      in if d < 1 / 2 then f else if 1 / 2 < d then f + 1 else if even f then f else f + 1)"

definition float64_exponent :: "rat \<Rightarrow> int" where
  \<comment> \<open>for \<open>0 < x\<close>, the \<open>e\<close> with \<open>2^52 \<le> x / 2^e < 2^53\<close>\<close>
  "float64_exponent x =
     (if 2 ^ 52 \<le> x then bitlen \<lfloor>x\<rfloor> - 53 else - bitlen (\<lceil>2 ^ 52 / x\<rceil> - 1))"

definition float64_round :: "rat \<Rightarrow> rat" where
  "float64_round x =
     (if x = 0 then 0
      else let e = float64_exponent \<bar>x\<bar>
           in sgn x * of_int (round_half_even (\<bar>x\<bar> / pow2 e)) * pow2 e)"

definition truncate :: "rat \<Rightarrow> int" where
  "truncate x = (if 0 \<le> x then \<lfloor>x\<rfloor> else \<lceil>x\<rceil>)"

text \<open>
  \<open>p := (float64(part) * float64(100)) / float64(all); return int(p)\<close>. A float64 division
  by zero does not panic in Go: \<open>p\<close> is an infinity or a NaN, and the conversion of a
  floating-point value that \<open>int\<close> cannot represent succeeds with a value that depends on the
  implementation. That result is \<open>None\<close> here.
\<close>

definition percent :: "int64 \<Rightarrow> int64 \<Rightarrow> int option" where
  "percent part all =
     (if sint all = 0 then None
      else let p = float64_round
                     (float64_round (float64_round (of_int (sint part)) * float64_round 100)
                      / float64_round (of_int (sint all)))
           in if - (2 ^ 63) \<le> truncate p \<and> truncate p < 2 ^ 63 then Some (truncate p)
              else None)"

subsection \<open>The storage agent client\<close>

definition getPodURL :: "string \<Rightarrow> string \<Rightarrow> string \<Rightarrow> string" where
  "getPodURL name serviceName namespace =
     ''http://'' @ name @ ''.'' @ serviceName @ ''.'' @ namespace @ ''.svc:''
       @ storageAgentPort"

definition getStorageAgentStatus ::
  "env \<Rightarrow> event list \<Rightarrow> string \<Rightarrow> (error + storageAgentStatus) \<times> event list" where
  "getStorageAgentStatus r h url =
     (let urlRoute = url @ ''/status''
      in ((case agentGet r h urlRoute of
             DoFailed \<Rightarrow> Inl TransportError
           | Response code body \<Rightarrow>
               if code \<noteq> 200 then Inl (UnexpectedStatusCode code)
               else (case body of None \<Rightarrow> Inl BodyError | Some status \<Rightarrow> Inr status)),
          h @ [HttpGet urlRoute]))"

definition decommissionStorageAgent ::
  "env \<Rightarrow> event list \<Rightarrow> string \<Rightarrow> error option \<times> event list" where
  "decommissionStorageAgent r h url =
     (let urlRoute = url @ ''/manage-agent/decommission''
      in (if agentPut r h urlRoute then None else Some TransportError,
          h @ [HttpPut urlRoute]))"

subsection \<open>Pod ordinals\<close>

definition isDigit :: "char \<Rightarrow> bool" where
  "isDigit c = ((48::int) \<le> of_char c \<and> of_char c \<le> (57::int))"

definition decimal :: "string \<Rightarrow> int" where
  "decimal ds = foldl (\<lambda>n c. 10 * n + (of_char c - 48)) 0 ds"

text \<open>\<open>strconv.Atoi\<close>: an optional sign, then one decimal digit or more; the value must fit
  an \<open>int\<close> (64 bits).\<close>

definition Atoi :: "string \<Rightarrow> error + int" where
  "Atoi s =
     (case s of
        [] \<Rightarrow> Inl NumError
      | c # cs \<Rightarrow>
          let neg = (c = CHR ''-'');
              ds = (if c = CHR ''-'' \<or> c = CHR ''+'' then cs else s)
          in if ds = [] \<or> \<not> list_all isDigit ds then Inl NumError
             else let v = (if neg then - decimal ds else decimal ds)
                  in if v < - (2 ^ 63) \<or> 2 ^ 63 \<le> v then Inl NumError else Inr v)"

definition TrimPrefix :: "string \<Rightarrow> string \<Rightarrow> string" where
  "TrimPrefix s pre = (if take (length pre) s = pre then drop (length pre) s else s)"

definition getInstanceNumberString :: "string \<Rightarrow> string \<Rightarrow> error + int" where
  "getInstanceNumberString p s = Atoi (TrimPrefix p (s @ ''-''))"

subsection \<open>Collecting the status of the pods\<close>

text \<open>\<open>Status.CountByState[state]++\<close>: a missing key reads as 0; the counter is an int32.\<close>

definition countOf :: "(PvPodStatus \<rightharpoonup> int32) \<Rightarrow> PvPodStatus \<Rightarrow> int32" where
  "countOf m state = (case m state of None \<Rightarrow> 0 | Some c \<Rightarrow> c)"

definition increment :: "(PvPodStatus \<rightharpoonup> int32) \<Rightarrow> PvPodStatus \<Rightarrow> (PvPodStatus \<rightharpoonup> int32)" where
  "increment m state = m(state \<mapsto> countOf m state + 1)"

fun collectPodsStatus ::
  "env \<Rightarrow> PvPoolStatus \<Rightarrow> event list \<Rightarrow> Pod list \<Rightarrow> error option \<times> PvPoolStatus \<times> event list"
where
  "collectPodsStatus r pvpStatus h [] = (None, pvpStatus, h)"
| "collectPodsStatus r pvpStatus h (pod # items) =
     (case getStorageAgentStatus r h
             (getPodURL (podName pod) (podSubdomain pod) (podNamespace pod)) of
        (Inl err, h') \<Rightarrow> (Some err, pvpStatus, h')
      | (Inr agentStatus, h') \<Rightarrow>
          let state = State agentStatus;
              st1 = pvpStatus\<lparr>PodsInfo := PodsInfo pvpStatus
                      @ [\<lparr>PodName = podName pod, PodStatus = state\<rparr>]\<rparr>;
              st2 = st1\<lparr>CountByState := increment (CountByState st1) state\<rparr>;
              st3 = st2\<lparr>Used := percent (agentUsed agentStatus) (Total agentStatus)\<rparr>
          in collectPodsStatus r st3 h' items)"

subsection \<open>Decommissioning\<close>

text \<open>
  The inner loop of \<open>decommissionRequiredPods\<close>:
  \<^verbatim>\<open>for _, pInfo := range podsInfo { ...; if num == req_num { pInfo.PodStatus = decomm_state } }\<close>
  The loop variable \<open>pInfo\<close> is a copy of the element, assigned afresh at each iteration; the
  assignment changes the copy and the slice keeps its elements. The error of
  \<open>getInstanceNumberString\<close> is dropped, and \<open>req_num\<close> is 0 then.
\<close>

fun markDecommissioned :: "string \<Rightarrow> int \<Rightarrow> PvPodSInfo list \<Rightarrow> PvPodSInfo list \<Rightarrow> PvPodSInfo list"
where
  "markDecommissioned s num podsInfo [] = podsInfo"
| "markDecommissioned s num podsInfo (pInfo # rest) =
     (let req_num = (case getInstanceNumberString (PodName pInfo) s of
                       Inl err \<Rightarrow> 0 | Inr n \<Rightarrow> n);
          pInfo' = (if num = req_num then pInfo\<lparr>PodStatus := PvPodStatusDecommissioned\<rparr>
                    else pInfo)
      in markDecommissioned s num podsInfo rest)"

text \<open>\<open>podsInfo\<close> is \<open>pvp.Status.PodsInfo\<close>, the status stored in the pool object that was
  read at the start of the pass, not the status under construction.\<close>

fun decommissionRequiredPods ::
  "env \<Rightarrow> PvPool \<Rightarrow> StatefulSet \<Rightarrow> event list \<Rightarrow> Pod list \<Rightarrow> error option \<times> PvPool \<times> event list"
where
  "decommissionRequiredPods r pvp sts h [] = (None, pvp, h)"
| "decommissionRequiredPods r pvp sts h (pod # items) =
     (case getInstanceNumberString (podName pod) (stsName sts) of
        Inl err \<Rightarrow> decommissionRequiredPods r pvp sts h items
      | Inr num \<Rightarrow>
          (case getStorageAgentStatus r h
                  (getPodURL (podName pod) (podSubdomain pod) (podNamespace pod)) of
             (Inl err, h') \<Rightarrow> (Some err, pvp, h')
           | (Inr agentStatus, h') \<Rightarrow>
               if NumPVs (Spec pvp) \<le>s (word_of_int num :: int32)
                  \<and> State agentStatus \<noteq> PvPodStatusDecommissioning
               then (case decommissionStorageAgent r h'
                            (getPodURL (podName pod) (podSubdomain pod) (podNamespace pod)) of
                       (Some err, h'') \<Rightarrow> (Some err, pvp, h'')
                     | (None, h'') \<Rightarrow>
                         let podsInfo = markDecommissioned (stsName sts) num
                                          (PodsInfo (Status pvp)) (PodsInfo (Status pvp));
                             pvp' = pvp\<lparr>Status := (Status pvp)\<lparr>PodsInfo := podsInfo\<rparr>\<rparr>
                         in decommissionRequiredPods r pvp' sts h'' items)
               else decommissionRequiredPods r pvp sts h' items))"

subsection \<open>The scaling engine\<close>

text \<open>The result of \<open>decommissionRequiredPods\<close> is not looked at by its caller.\<close>

definition reconcilePvPoolStatefulset ::
  "env \<Rightarrow> PvPool \<Rightarrow> StatefulSet \<Rightarrow> Service \<Rightarrow> PvPoolStatus \<Rightarrow> Pod list \<Rightarrow> event list
   \<Rightarrow> error option \<times> PvPool \<times> StatefulSet \<times> PvPoolStatus \<times> event list" where
  "reconcilePvPoolStatefulset r pvp sts srv newStatus items h =
     (let numPVs = NumPVs (Spec pvp);
          (shouldUpdate, pvp', sts', newStatus', h') =
            (if stsReplicas sts \<le>s numPVs
                \<and> countOf (CountByState newStatus) PvPodStatusReady \<noteq> numPVs
             then (True, pvp, sts\<lparr>stsReplicas := numPVs\<rparr>,
                   newStatus\<lparr>Phase := PvPoolPhaseScaling\<rparr>, h)
             else if numPVs <s stsReplicas sts
             then (case decommissionRequiredPods r pvp sts h items of
                     (err, pvp1, h1) \<Rightarrow> (False, pvp1, sts, newStatus, h1))
             else if countOf (CountByState newStatus) PvPodStatusReady = numPVs
             then (False, pvp, sts, newStatus\<lparr>Phase := PvPoolPhaseReady\<rparr>, h)
             else (False, pvp, sts, newStatus\<lparr>Phase := PvPoolPhaseScaling\<rparr>, h))
      in if shouldUpdate
         then (apiUpdateStatefulSet r, pvp', sts', newStatus', h' @ [UpdateStatefulSet sts'])
         else (None, pvp', sts', newStatus', h'))"

subsection \<open>Ensuring the service and the statefulset\<close>

definition getPvPoolServiceName :: "PvPool \<Rightarrow> string" where
  "getPvPoolServiceName pvp = pvpName pvp @ ''-srv''"

definition getPvPoolStatefulsetName :: "PvPool \<Rightarrow> string" where
  "getPvPoolStatefulsetName pvp = pvpName pvp @ ''-sts''"

definition newServiceForPvPool :: "PvPool \<Rightarrow> Service" where
  "newServiceForPvPool pvp =
     \<lparr>srvName = getPvPoolServiceName pvp, srvNamespace = pvpNamespace pvp,
      srvSelector = pvpName pvp, srvPort = 8080\<rparr>"

definition newStatefulsetForPvPool :: "PvPool \<Rightarrow> StatefulSet" where
  "newStatefulsetForPvPool pvp =
     \<lparr>stsName = getPvPoolStatefulsetName pvp, stsNamespace = pvpNamespace pvp,
      stsReplicas = NumPVs (Spec pvp), stsServiceName = getPvPoolServiceName pvp,
      stsImage = Image (Spec pvp),
      stsVolumeBytes = scast (PvSizeGB (Spec pvp)) * 1024 * 1024 * 1024\<rparr>"

text \<open>On an error the callers do not look at the returned object, so only the error is
  kept then.\<close>

definition ensurePvPoolService :: "env \<Rightarrow> PvPool \<Rightarrow> event list \<Rightarrow> (error + Service) \<times> event list"
where
  "ensurePvPoolService r pvp h =
     (let h1 = h @ [GetService (getPvPoolServiceName pvp)]
      in case apiGetService r of
           Inl err \<Rightarrow>
             if err = NotFound
             then (let pvPoolSrv = newServiceForPvPool pvp
                   in (case apiCreateService r of
                         Some err' \<Rightarrow> Inl err'
                       | None \<Rightarrow> Inr pvPoolSrv,
                       h1 @ [CreateService pvPoolSrv]))
             else (Inl err, h1)
         | Inr pvPoolSrv \<Rightarrow> (Inr pvPoolSrv, h1))"

definition ensurePvPoolStatefulset ::
  "env \<Rightarrow> PvPool \<Rightarrow> event list \<Rightarrow> (error + StatefulSet) \<times> event list" where
  "ensurePvPoolStatefulset r pvp h =
     (let h1 = h @ [GetStatefulSet (getPvPoolStatefulsetName pvp)]
      in case apiGetStatefulSet r of
           Inl err \<Rightarrow>
             if err = NotFound
             then (let sts = newStatefulsetForPvPool pvp
                   in (case apiCreateStatefulSet r of
                         Some err' \<Rightarrow> Inl err'
                       | None \<Rightarrow> Inr sts,
                       h1 @ [CreateStatefulSet sts]))
             else (Inl err, h1)
         | Inr sts \<Rightarrow> (Inr sts, h1))"

subsection \<open>The reconcile pass\<close>

definition initialStatus :: PvPoolStatus where
  "initialStatus =
     \<lparr>Phase = PvPoolPhaseUnknown, CountByState = Map.empty, PodsInfo = [], Used = Some 0\<rparr>"

definition reconcilePvPool ::
  "env \<Rightarrow> PvPool \<Rightarrow> event list \<Rightarrow> PvPoolStatus \<times> error option \<times> event list" where
  "reconcilePvPool r pvp h =
     (let newStatus = initialStatus
      in case ensurePvPoolService r pvp h of
           (Inl err, h1) \<Rightarrow> (newStatus, Some err, h1)
         | (Inr srv, h1) \<Rightarrow>
             (case ensurePvPoolStatefulset r pvp h1 of
                (Inl err, h2) \<Rightarrow> (newStatus, Some err, h2)
              | (Inr sts, h2) \<Rightarrow>
                  (case apiListPods r of
                     Inl err \<Rightarrow> (newStatus, Some err, h2 @ [ListPods])
                   | Inr podList \<Rightarrow>
                       (case collectPodsStatus r newStatus (h2 @ [ListPods]) podList of
                          (Some err, newStatus1, h3) \<Rightarrow> (newStatus1, Some err, h3)
                        | (None, newStatus1, h3) \<Rightarrow>
                            (case reconcilePvPoolStatefulset r pvp sts srv newStatus1
                                    podList h3 of
                               (err, pvp', sts', newStatus2, h4) \<Rightarrow> (newStatus2, err, h4))))))"

text \<open>
  \<open>reflect.DeepEqual(newStatus, pvPool.Status)\<close> compares a \<open>*PvPoolStatus\<close> with a
  \<open>PvPoolStatus\<close>: values of distinct types are never deeply equal.
\<close>

definition DeepEqual_ptr_struct :: "PvPoolStatus \<Rightarrow> PvPoolStatus \<Rightarrow> bool" where
  "DeepEqual_ptr_struct newStatus status = False"

text \<open>
  In \<open>if reconcileErr != nil { return requeueWithError(err) }\<close> the variable \<open>err\<close> is the
  one that \<open>r.Get\<close> assigned, which is nil on this path: the \<open>err\<close> of the status update is
  declared in the block of the \<open>if\<close> above and is out of scope.
\<close>

definition Reconcile :: "env \<Rightarrow> event list \<Rightarrow> (Result \<times> error option) \<times> event list" where
  "Reconcile r h =
     (let h0 = h @ [GetPvPool]
      in case apiGetPvPool r of
           Inl err \<Rightarrow>
             if err = NotFound then (doNotRequeue, h0) else (requeueWithError (Some err), h0)
         | Inr pvPool \<Rightarrow>
             (let err = None
              in case reconcilePvPool r pvPool h0 of
                   (newStatus, reconcileErr, h1) \<Rightarrow>
                     if \<not> DeepEqual_ptr_struct newStatus (Status pvPool)
                        \<and> apiUpdateStatus r \<noteq> None
                     then (requeueWithError (apiUpdateStatus r), h1 @ [UpdateStatus newStatus])
                     else (let (pvPool', h2) =
                                 (if \<not> DeepEqual_ptr_struct newStatus (Status pvPool)
                                  then (pvPool\<lparr>Status := newStatus\<rparr>,
                                        h1 @ [UpdateStatus newStatus])
                                  else (pvPool, h1))
                           in if reconcileErr \<noteq> None then (requeueWithError err, h2)
                              else if Phase (Status pvPool') \<noteq> PvPoolPhaseReady
                              then (requeueAfterSeconds 3, h2)
                              else (requeueAfterSeconds 60, h2))))"

subsection \<open>Reading a trace\<close>

primrec statusUpdates :: "event list \<Rightarrow> PvPoolStatus list" where
  "statusUpdates [] = []"
| "statusUpdates (e # es) =
     (case e of UpdateStatus st \<Rightarrow> st # statusUpdates es | _ \<Rightarrow> statusUpdates es)"

primrec decommissionCalls :: "event list \<Rightarrow> string list" where
  "decommissionCalls [] = []"
| "decommissionCalls (e # es) =
     (case e of HttpPut u \<Rightarrow> u # decommissionCalls es | _ \<Rightarrow> decommissionCalls es)"

primrec statefulSetUpdates :: "event list \<Rightarrow> StatefulSet list" where
  "statefulSetUpdates [] = []"
| "statefulSetUpdates (e # es) =
     (case e of UpdateStatefulSet s \<Rightarrow> s # statefulSetUpdates es | _ \<Rightarrow> statefulSetUpdates es)"


subsection \<open>Example scenarios\<close>

definition examplePool :: "int32 \<Rightarrow> PvPoolStatus \<Rightarrow> PvPool" where
  "examplePool d st =
     \<lparr>pvpName = ''p'', pvpNamespace = ''ns'',
      Spec = \<lparr>Image = ''agent:1'', NumPVs = d, PvSizeGB = 1, StorageClass = ''''\<rparr>,
      Status = st\<rparr>"

definition exampleSts :: "int32 \<Rightarrow> StatefulSet" where
  "exampleSts c = newStatefulsetForPvPool (examplePool c initialStatus)"

definition examplePod :: "string \<Rightarrow> Pod" where
  "examplePod n = \<lparr>podName = ''p-sts-'' @ n, podNamespace = ''ns'', podSubdomain = ''p-srv''\<rparr>"

abbreviation podURL :: "Pod \<Rightarrow> string" where
  "podURL pod \<equiv> getPodURL (podName pod) (podSubdomain pod) (podNamespace pod)"

definition exampleAgent :: "string \<Rightarrow> int64 \<Rightarrow> int64 \<Rightarrow> storageAgentStatus" where
  "exampleAgent state u t = \<lparr>agentName = ''agent'', Total = t, agentUsed = u, State = state\<rparr>"

definition statesByName :: "(string \<times> PvPodStatus) list \<Rightarrow> Pod \<Rightarrow> storageAgentStatus" where
  "statesByName tbl pod =
     exampleAgent (case map_of tbl (podName pod) of None \<Rightarrow> PvPodStatusUnknown | Some s \<Rightarrow> s)
       5 10"

text \<open>An environment in which the pool, its service and its statefulset exist and every
  call to the API succeeds. The agent of a listed pod answers every GET with \<open>rep pod\<close>,
  but the pods named in \<open>unreachable\<close> do not answer; a PUT fails exactly for the pods named
  in \<open>down\<close>.\<close>

definition exampleEnv ::
  "PvPool \<Rightarrow> StatefulSet \<Rightarrow> Pod list \<Rightarrow> (Pod \<Rightarrow> storageAgentStatus) \<Rightarrow> string list
   \<Rightarrow> string list \<Rightarrow> env" where
  "exampleEnv pvp sts pods rep unreachable down =
     \<lparr>apiGetPvPool = Inr pvp, apiGetService = Inr (newServiceForPvPool pvp),
      apiCreateService = None, apiGetStatefulSet = Inr sts, apiCreateStatefulSet = None,
      apiListPods = Inr pods, apiUpdateStatefulSet = None, apiUpdateStatus = None,
      agentGet = (\<lambda>h url. case find (\<lambda>pod. podURL pod @ ''/status'' = url) pods of
                              None \<Rightarrow> DoFailed
                            | Some pod \<Rightarrow> if podName pod \<in> set unreachable then DoFailed
                                         else Response 200 (Some (rep pod))),
      agentPut = (\<lambda>h url. case find (\<lambda>pod. podURL pod @ ''/manage-agent/decommission'' = url)
                                   pods of
                              None \<Rightarrow> False
                            | Some pod \<Rightarrow> podName pod \<notin> set down)\<rparr>"

definition pods2 :: "Pod list" where
  "pods2 = [examplePod ''0'', examplePod ''1'']"

definition pods3 :: "Pod list" where
  "pods3 = [examplePod ''0'', examplePod ''1'', examplePod ''2'']"

definition pods4 :: "Pod list" where
  "pods4 = [examplePod ''0'', examplePod ''1'', examplePod ''2'', examplePod ''3'']"

text \<open>Desired size 2, four replicas, the pods at ordinals 2 and 3 in state Unknown.\<close>

definition statesScaleDown :: "Pod \<Rightarrow> storageAgentStatus" where
  "statesScaleDown =
     statesByName [(''p-sts-0'', PvPodStatusReady), (''p-sts-1'', PvPodStatusReady),
                   (''p-sts-2'', PvPodStatusUnknown), (''p-sts-3'', PvPodStatusUnknown)]"

text \<open>The status stored by the pass before: the four pods listed, those at ordinals 2 and
  3 in state Unknown.\<close>

definition storedScaleDown :: PvPoolStatus where
  "storedScaleDown =
     \<lparr>Phase = PvPoolPhaseScaling,
      CountByState = [PvPodStatusReady \<mapsto> 2, PvPodStatusUnknown \<mapsto> 2],
      PodsInfo = [\<lparr>PodName = ''p-sts-0'', PodStatus = PvPodStatusReady\<rparr>,
                  \<lparr>PodName = ''p-sts-1'', PodStatus = PvPodStatusReady\<rparr>,
                  \<lparr>PodName = ''p-sts-2'', PodStatus = PvPodStatusUnknown\<rparr>,
                  \<lparr>PodName = ''p-sts-3'', PodStatus = PvPodStatusUnknown\<rparr>],
      Used = Some 50\<rparr>"

definition poolScaleDown :: PvPool where
  "poolScaleDown = examplePool 2 storedScaleDown"

definition envScaleDown :: env where
  "envScaleDown = exampleEnv poolScaleDown (exampleSts 4) pods4 statesScaleDown [] []"

text \<open>Desired size 1, three replicas, all pods in state Unknown; the PUT to the pod at
  ordinal 1 fails.\<close>

definition envScaleDownFails :: env where
  "envScaleDownFails =
     exampleEnv (examplePool 1 initialStatus) (exampleSts 3) pods3 (statesByName []) []
       [''p-sts-1'']"

text \<open>Desired size 0, three replicas, all pods in state Unknown; the agent at ordinal 1
  does not answer.\<close>

definition envGetFails :: env where
  "envGetFails =
     exampleEnv (examplePool 0 initialStatus) (exampleSts 3) pods3 (statesByName [])
       [''p-sts-1''] []"

text \<open>Desired size 0, three replicas, all pods in state Unknown; the PUT to the pod at
  ordinal 1 fails.\<close>

definition envPutFails :: env where
  "envPutFails =
     exampleEnv (examplePool 0 initialStatus) (exampleSts 3) pods3 (statesByName []) []
       [''p-sts-1'']"

text \<open>Desired size 4, four replicas, three pods Ready and one Unknown.\<close>

definition statesThreeReady :: "Pod \<Rightarrow> storageAgentStatus" where
  "statesThreeReady =
     statesByName [(''p-sts-0'', PvPodStatusReady), (''p-sts-1'', PvPodStatusReady),
                   (''p-sts-2'', PvPodStatusReady)]"

definition envThreeReady :: env where
  "envThreeReady =
     exampleEnv (examplePool 4 initialStatus) (exampleSts 4) pods4 statesThreeReady [] []"

text \<open>Desired size 2, two replicas, the stored status is Ready with both pods Ready; the
  agent at ordinal 1 is unreachable.\<close>

definition storedReady2 :: PvPoolStatus where
  "storedReady2 =
     \<lparr>Phase = PvPoolPhaseReady, CountByState = [PvPodStatusReady \<mapsto> 2],
      PodsInfo = [\<lparr>PodName = ''p-sts-0'', PodStatus = PvPodStatusReady\<rparr>,
                  \<lparr>PodName = ''p-sts-1'', PodStatus = PvPodStatusReady\<rparr>],
      Used = Some 50\<rparr>"

definition envUnreachable :: env where
  "envUnreachable =
     exampleEnv (examplePool 2 storedReady2) (exampleSts 2) pods2
       (statesByName [(''p-sts-0'', PvPodStatusReady), (''p-sts-1'', PvPodStatusReady)])
       [''p-sts-1''] []"

text \<open>Desired size 4, a statefulset of no replicas, no pod.\<close>

definition envScaleUp :: env where
  "envScaleUp =
     exampleEnv (examplePool 4 initialStatus) (exampleSts 0) [] (statesByName []) [] []"

text \<open>Desired size 4, four replicas, the four pods Ready.\<close>

definition statesAllReady :: "Pod \<Rightarrow> storageAgentStatus" where
  "statesAllReady =
     statesByName [(''p-sts-0'', PvPodStatusReady), (''p-sts-1'', PvPodStatusReady),
                   (''p-sts-2'', PvPodStatusReady), (''p-sts-3'', PvPodStatusReady)]"

definition envAllReady :: env where
  "envAllReady =
     exampleEnv (examplePool 4 initialStatus) (exampleSts 4) pods4 statesAllReady [] []"

definition statusAllReady :: PvPoolStatus where
  "statusAllReady = fst (snd (collectPodsStatus envAllReady initialStatus [] pods4))"

text \<open>Desired size 1, one replica, whose agent reports state Ready, used 3 and total 2.\<close>

definition envOverfull :: env where
  "envOverfull =
     exampleEnv (examplePool 1 initialStatus) (exampleSts 1) [examplePod ''0'']
       (\<lambda>pod. exampleAgent PvPodStatusReady 3 2) [] []"

text \<open>Desired size 1, one replica, whose agent reports state Ready, used 0 and total 0.\<close>

definition envZeroTotal :: env where
  "envZeroTotal =
     exampleEnv (examplePool 1 initialStatus) (exampleSts 1) [examplePod ''0'']
       (\<lambda>pod. exampleAgent PvPodStatusReady 0 0) [] []"

subsection \<open>Which pods a scale-down must decommission\<close>



abbreviation engine_status ::
  "error option \<times> PvPool \<times> StatefulSet \<times> PvPoolStatus \<times> event list \<Rightarrow> PvPoolStatus" where
  "engine_status x \<equiv> fst (snd (snd (snd x)))"

abbreviation engine_trace ::
  "error option \<times> PvPool \<times> StatefulSet \<times> PvPoolStatus \<times> event list \<Rightarrow> event list" where
  "engine_trace x \<equiv> snd (snd (snd (snd x)))"

section \<open>Properties\<close>

subsection \<open>Auxiliary facts\<close>


lemma markDecommissioned_unchanged: "markDecommissioned s num podsInfo rest = podsInfo"
  by (induction rest) (simp_all add: Let_def)


lemma getStorageAgentStatus_ok:
  assumes "agentGet r h (url @ ''/status'') = Response 200 (Some s)"
  shows "getStorageAgentStatus r h url = (Inr s, h @ [HttpGet (url @ ''/status'')])"
  using assms by (simp add: getStorageAgentStatus_def Let_def)





lemmas example_defs =
  pods2_def pods3_def pods4_def statesScaleDown_def storedScaleDown_def poolScaleDown_def statesThreeReady_def envScaleDown_def envScaleDownFails_def
  envThreeReady_def envScaleUp_def statesAllReady_def envAllReady_def envUnreachable_def envZeroTotal_def envOverfull_def envGetFails_def envPutFails_def storedReady2_def statesByName_def
  exampleEnv_def examplePool_def exampleSts_def
  examplePod_def exampleAgent_def newStatefulsetForPvPool_def newServiceForPvPool_def
  getPvPoolServiceName_def getPvPoolStatefulsetName_def initialStatus_def

lemmas code_defs =
  reconcilePvPool_def ensurePvPoolService_def ensurePvPoolStatefulset_def
  reconcilePvPoolStatefulset_def getStorageAgentStatus_def decommissionStorageAgent_def
  getPodURL_def storageAgentPort_def countOf_def increment_def
  PvPodStatusReady_def PvPodStatusUnknown_def PvPodStatusDecommissioning_def
  PvPodStatusDecommissioned_def Let_def word_sle_eq word_sless_alt

lemma ordinal_0: "getInstanceNumberString ''p-sts-0'' ''p-sts'' = Inr 0" by code_simp
lemma ordinal_1: "getInstanceNumberString ''p-sts-1'' ''p-sts'' = Inr 1" by code_simp
lemma ordinal_2: "getInstanceNumberString ''p-sts-2'' ''p-sts'' = Inr 2" by code_simp
lemma ordinal_3: "getInstanceNumberString ''p-sts-3'' ''p-sts'' = Inr 3" by code_simp
lemma percent_5_10: "percent 5 10 = Some 50" by code_simp
lemmas ordinals = ordinal_0 ordinal_1 ordinal_2 ordinal_3




lemma percent_zero_total: "percent part 0 = None"
  by (simp add: percent_def)








lemma Reconcile_error_not_returned:
  assumes "apiGetPvPool r = Inr pvPool"
    and "reconcilePvPool r pvPool (h @ [GetPvPool]) = (st, Some e, h1)"
    and "apiUpdateStatus r = None"
  shows "fst (Reconcile r h) = (\<lparr>RequeueAfter = 3 * Second\<rparr>, None)"
  using assms
  by (simp add: Reconcile_def Let_def requeueWithError_def DeepEqual_ptr_struct_def)

lemma engine_keeps_PodsInfo:
  "PodsInfo (engine_status (reconcilePvPoolStatefulset r pvp sts srv newStatus items h))
     = PodsInfo newStatus"
  by (simp add: reconcilePvPoolStatefulset_def Let_def case_prod_beta)

lemma countOf_increment:
  "countOf (increment m s) k = (if k = s then countOf m k + 1 else countOf m k)"
  by (simp add: increment_def countOf_def)

lemma countOf_empty: "countOf Map.empty k = 0"
  by (simp add: countOf_def)

lemma dom_increment: "dom (increment m s) = insert s (dom m)"
  by (simp add: increment_def)

lemma countOf_foldl_increment:
  "countOf (foldl increment m ss) k = countOf m k + of_nat (count_list ss k)"
  by (induction ss arbitrary: m) (simp_all add: countOf_increment)

lemma dom_foldl_increment: "dom (foldl increment m ss) = dom m \<union> set ss"
  by (induction ss arbitrary: m) (auto simp add: dom_increment)

lemma collectPodsStatus_success:
  assumes "collectPodsStatus r st h items = (None, st', h')"
  shows "\<exists>states. length states = length items
           \<and> PodsInfo st' = PodsInfo st @
                 map (\<lambda>(pod, s). \<lparr>PodName = podName pod, PodStatus = s\<rparr>) (zip items states)
           \<and> CountByState st' = foldl increment (CountByState st) states"
  using assms
proof (induction items arbitrary: st h)
  case Nil
  then show ?case by simp
next
  case (Cons pod items)
  show ?case
  proof (cases "getStorageAgentStatus r h (podURL pod)")
    case (Pair res h1)
    show ?thesis
    proof (cases res)
      case (Inl e)
      with Pair Cons.prems show ?thesis by simp
    next
      case (Inr agentStatus)
      let ?st3 = "st\<lparr>PodsInfo := PodsInfo st @ [\<lparr>PodName = podName pod, PodStatus = State agentStatus\<rparr>],
                     CountByState := increment (CountByState st) (State agentStatus),
                     Used := percent (agentUsed agentStatus) (Total agentStatus)\<rparr>"
      have "collectPodsStatus r ?st3 h1 items = (None, st', h')"
        using Pair Inr Cons.prems by (simp add: Let_def)
      from Cons.IH [OF this] obtain states where
        st: "length states = length items"
          "PodsInfo st' = PodsInfo ?st3 @
             map (\<lambda>(pod, s). \<lparr>PodName = podName pod, PodStatus = s\<rparr>) (zip items states)"
          "CountByState st' = foldl increment (CountByState ?st3) states"
        by blast
      show ?thesis
        by (rule exI [of _ "State agentStatus # states"]) (simp add: st)
    qed
  qed
qed


lemma sint_of_nat_int32:
  assumes "n < 2 ^ 31"
  shows "sint (of_nat n :: int32) = int n"
proof -
  have "int n < 2 ^ 31" using assms by simp
  then have "signed_take_bit 31 (int n) = int n"
    by (simp add: signed_take_bit_int_eq_self)
  then show ?thesis
    by (simp add: signed_of_nat)
qed

lemma collectPodsStatus_answers:
  assumes "\<And>h pod. pod \<in> set items \<Longrightarrow>
             agentGet r h (podURL pod @ ''/status'') = Response 200 (Some (rep pod))"
  shows "fst (collectPodsStatus r st h items) = None \<and>
         PodsInfo (fst (snd (collectPodsStatus r st h items))) =
           PodsInfo st @
           map (\<lambda>pod. \<lparr>PodName = podName pod, PodStatus = State (rep pod)\<rparr>) items"
  using assms
proof (induction items arbitrary: st h)
  case Nil
  show ?case by simp
next
  case (Cons pod items)
  have get: "getStorageAgentStatus r h (podURL pod)
               = (Inr (rep pod), h @ [HttpGet (podURL pod @ ''/status'')])"
    by (rule getStorageAgentStatus_ok) (simp add: Cons.prems)
  have IH: "\<And>st h. fst (collectPodsStatus r st h items) = None \<and>
         PodsInfo (fst (snd (collectPodsStatus r st h items))) =
           PodsInfo st @
           map (\<lambda>pod. \<lparr>PodName = podName pod, PodStatus = State (rep pod)\<rparr>) items"
    by (rule Cons.IH) (simp add: Cons.prems)
  show ?case
    by (simp add: get IH Let_def)
qed

lemma collectPodsStatus_used:
  assumes "\<And>h pod. pod \<in> set items \<Longrightarrow>
             agentGet r h (podURL pod @ ''/status'') = Response 200 (Some (rep pod))"
  shows "Used (fst (snd (collectPodsStatus r st h items))) =
           (if items = [] then Used st
            else percent (agentUsed (rep (last items))) (Total (rep (last items))))"
  using assms
proof (induction items arbitrary: st h)
  case Nil
  show ?case by simp
next
  case (Cons pod items)
  have get: "getStorageAgentStatus r h (podURL pod)
               = (Inr (rep pod), h @ [HttpGet (podURL pod @ ''/status'')])"
    by (rule getStorageAgentStatus_ok) (simp add: Cons.prems)
  have IH: "\<And>st h. Used (fst (snd (collectPodsStatus r st h items))) =
           (if items = [] then Used st
            else percent (agentUsed (rep (last items))) (Total (rep (last items))))"
    by (rule Cons.IH) (simp add: Cons.prems)
  show ?case
    by (simp add: get IH Let_def)
qed

lemma envThreeReady_answers:
  assumes "pod \<in> set pods4"
  shows "agentGet envThreeReady h (podURL pod @ ''/status'')
           = Response 200 (Some (statesThreeReady pod))"
  using assms
  by (simp add: pods4_def, elim disjE)
     (simp_all add: envThreeReady_def exampleEnv_def pods4_def examplePod_def getPodURL_def)


lemma engine_equal_replicas_not_ready:
  assumes "stsReplicas sts = NumPVs (Spec pvp)"
    and "countOf (CountByState newStatus) PvPodStatusReady \<noteq> NumPVs (Spec pvp)"
  shows "engine_trace (reconcilePvPoolStatefulset r pvp sts srv newStatus items h)
           = h @ [UpdateStatefulSet sts]"
  using assms by (simp add: reconcilePvPoolStatefulset_def Let_def)

subsection \<open>float64 rounding\<close>

lemma pow2_pos: "0 < pow2 e"
  by (simp add: pow2_def)

lemma float64_exponent_bounds:
  assumes "0 < x"
  shows "2 ^ 52 * pow2 (float64_exponent x) \<le> x \<and> x < 2 ^ 53 * pow2 (float64_exponent x)"
proof (cases "2 ^ 52 \<le> x")
  case True
  define f where "f = \<lfloor>x\<rfloor>"
  define b where "b = bitlen f"
  have f_ge: "2 ^ 52 \<le> f"
    using True by (simp add: f_def le_floor_iff)
  then have f_pos: "0 < f" by simp
  have bounds: "2 ^ nat (b - 1) \<le> f" "f < 2 ^ nat b"
    using bitlen_bounds [OF f_pos] by (simp_all add: b_def)
  have "(2::int) ^ 52 < 2 ^ nat b"
    using f_ge bounds(2) by linarith
  then have "52 < nat b"
    by (simp only: power_strict_increasing_iff [of "2::int"] one_less_numeral_iff semiring_norm)
  then have b53: "53 \<le> b" by linarith
  have e: "pow2 (float64_exponent x) = 2 ^ nat (b - 53)"
    using True b53 by (simp add: float64_exponent_def pow2_def f_def b_def)
  have n1: "nat (b - 1) = 52 + nat (b - 53)" using b53 by linarith
  have n2: "nat b = 53 + nat (b - 53)" using b53 by linarith
  have "(2::rat) ^ 52 * 2 ^ nat (b - 53) = of_int (2 ^ nat (b - 1))"
    by (simp add: n1 power_add)
  also have "\<dots> \<le> of_int f"
    using bounds(1) by (simp only: of_int_le_iff)
  also have "\<dots> \<le> x"
    by (simp add: f_def)
  finally have lower: "2 ^ 52 * pow2 (float64_exponent x) \<le> x"
    by (simp add: e)
  have "x < of_int (f + 1)"
    using floor_correct [of x] by (simp add: f_def)
  also have "\<dots> \<le> of_int (2 ^ nat b)"
    using bounds(2) by (simp only: of_int_le_iff zless_imp_add1_zle)
  also have "\<dots> = 2 ^ 53 * 2 ^ nat (b - 53)"
    by (simp add: n2 power_add)
  finally have upper: "x < 2 ^ 53 * pow2 (float64_exponent x)"
    by (simp add: e)
  show ?thesis using lower upper by simp
next
  case False
  define r where "r = 2 ^ 52 / x"
  define d where "d = \<lceil>r\<rceil> - 1"
  define s where "s = bitlen d"
  have r_gt: "1 < r"
    using False assms by (simp add: r_def)
  then have d_pos: "0 < d"
    by (simp add: d_def less_ceiling_iff)
  have bounds: "2 ^ nat (s - 1) \<le> d" "d < 2 ^ nat s"
    using bitlen_bounds [OF d_pos] by (simp_all add: s_def)
  have s_pos: "1 \<le> s"
  proof (rule ccontr)
    assume "\<not> 1 \<le> s"
    then have "nat s = 0" by simp
    then show False using bounds(2) d_pos by simp
  qed
  have e: "pow2 (float64_exponent x) = 1 / 2 ^ nat s"
    using False s_pos by (simp add: float64_exponent_def pow2_def r_def d_def s_def)
  have rx: "r * x = 2 ^ 52"
    using assms by (simp add: r_def)
  have "r \<le> of_int (d + 1)"
    by (simp add: d_def)
  also have "\<dots> \<le> of_int (2 ^ nat s)"
    using bounds(2) by (simp only: of_int_le_iff zless_imp_add1_zle)
  finally have "r \<le> 2 ^ nat s" by simp
  then have "r * x \<le> 2 ^ nat s * x"
    using assms by (simp add: mult_right_mono)
  then have lower: "2 ^ 52 * pow2 (float64_exponent x) \<le> x"
    by (simp add: e rx field_simps)
  have "2 ^ nat (s - 1) < d + 1"
    using bounds(1) by linarith
  then have "2 ^ nat (s - 1) < \<lceil>r\<rceil>"
    by (simp add: d_def)
  then have "of_int (2 ^ nat (s - 1)) < r"
    by (simp only: less_ceiling_iff)
  then have "2 ^ nat (s - 1) < r"
    by simp
  then have "2 ^ nat (s - 1) * x < r * x"
    using assms by simp
  then have half: "2 ^ nat (s - 1) * x < 2 ^ 52"
    by (simp add: rx)
  have "nat s = Suc (nat (s - 1))" using s_pos by linarith
  then have "(2::rat) ^ nat s = 2 * 2 ^ nat (s - 1)" by simp
  then have "2 ^ nat s * x < 2 ^ 53"
    using half by (simp add: mult.commute)
  then have upper: "x < 2 ^ 53 * pow2 (float64_exponent x)"
    by (simp add: e field_simps)
  show ?thesis using lower upper by simp
qed

lemma pow2_nonpos: "e \<le> 0 \<Longrightarrow> pow2 e = 1 / 2 ^ nat (- e)"
  by (cases "e = 0") (simp_all add: pow2_def)

lemma pow2_ge_2: "1 \<le> e \<Longrightarrow> 2 \<le> pow2 e"
proof -
  assume "1 \<le> e"
  then have "nat e = Suc (nat (e - 1))" by linarith
  then have "(2::rat) ^ nat e = 2 * 2 ^ nat (e - 1)" by simp
  moreover have "(1::rat) \<le> 2 ^ nat (e - 1)" by simp
  ultimately have "(2::rat) \<le> 2 ^ nat e" by linarith
  then show ?thesis using \<open>1 \<le> e\<close> by (simp add: pow2_def)
qed

lemma pow2_le_1: "e \<le> 0 \<Longrightarrow> pow2 e \<le> 1"
  by (simp add: pow2_nonpos)

lemma round_half_even_cases:
  "round_half_even y = \<lfloor>y\<rfloor> \<and> y - of_int \<lfloor>y\<rfloor> \<le> 1 / 2
   \<or> round_half_even y = \<lfloor>y\<rfloor> + 1 \<and> 1 / 2 \<le> y - of_int \<lfloor>y\<rfloor>"
  unfolding round_half_even_def Let_def by auto

lemma round_half_even_error: "\<bar>of_int (round_half_even y) - y\<bar> \<le> 1 / 2"
proof -
  have "of_int \<lfloor>y\<rfloor> \<le> y" "y < of_int \<lfloor>y\<rfloor> + 1"
    using floor_correct [of y] by simp_all
  then show ?thesis
    using round_half_even_cases [of y] by (elim disjE conjE) simp_all
qed

lemma round_half_even_of_int: "round_half_even (of_int k) = k"
  by (simp add: round_half_even_def)

lemma round_half_even_ge:
  assumes "of_int k \<le> y"
  shows "k \<le> round_half_even y"
proof -
  have "k \<le> \<lfloor>y\<rfloor>" using assms by (simp add: le_floor_iff)
  then show ?thesis
    using round_half_even_cases [of y] by (elim disjE conjE) simp_all
qed

lemma float64_round_pos:
  assumes "0 < x"
  shows "float64_round x =
     of_int (round_half_even (x / pow2 (float64_exponent x))) * pow2 (float64_exponent x)"
proof -
  have "x \<noteq> 0" "sgn x = 1" "\<bar>x\<bar> = x" using assms by simp_all
  then show ?thesis
    unfolding float64_round_def Let_def by simp
qed

lemma float64_round_error:
  assumes "0 < x"
  shows "\<bar>float64_round x - x\<bar> \<le> x / 2 ^ 53"
proof -
  define p where "p = pow2 (float64_exponent x)"
  define y where "y = x / p"
  define m where "m = round_half_even y"
  have p_pos: "0 < p" by (simp add: p_def pow2_pos)
  have x_eq: "y * p = x" using p_pos by (simp add: y_def)
  have "2 ^ 52 * p \<le> x"
    using float64_exponent_bounds [OF assms] by (simp add: p_def)
  then have p_le: "p / 2 \<le> x / 2 ^ 53" by simp
  have "float64_round x = of_int m * p"
    using assms by (simp add: float64_round_pos m_def y_def p_def)
  moreover have "(of_int m - y) * p = of_int m * p - y * p"
    by (simp add: algebra_simps)
  ultimately have "float64_round x - x = (of_int m - y) * p"
    by (simp only: x_eq)
  then have "\<bar>float64_round x - x\<bar> = \<bar>of_int m - y\<bar> * p"
    using p_pos by (simp add: abs_mult)
  also have "\<dots> \<le> (1 / 2) * p"
    using round_half_even_error [of y] p_pos by (simp add: m_def mult_right_mono)
  finally show ?thesis using p_le by simp
qed

lemma float64_round_of_int:
  assumes "0 \<le> n" and "n < 2 ^ 53"
  shows "float64_round (of_int n) = of_int n"
proof (cases "n = 0")
  case True
  then show ?thesis by (simp add: float64_round_def)
next
  case False
  define x :: rat where "x = of_int n"
  define e where "e = float64_exponent x"
  have x_pos: "0 < x" using assms(1) False by (simp add: x_def)
  have x_lt: "x < 2 ^ 53"
    using assms(2) by (simp add: x_def)
  have bounds: "2 ^ 52 * pow2 e \<le> x" "x < 2 ^ 53 * pow2 e"
    using float64_exponent_bounds [OF x_pos] by (simp_all add: e_def)
  have e_le: "e \<le> 0"
  proof (rule ccontr)
    assume "\<not> e \<le> 0"
    then have "2 \<le> pow2 e" by (simp add: pow2_ge_2)
    then have "(2::rat) ^ 52 * 2 \<le> 2 ^ 52 * pow2 e" by simp
    then show False using bounds(1) x_lt by simp
  qed
  define k where "k = nat (- e)"
  have p: "pow2 e = 1 / 2 ^ k" using e_le by (simp add: pow2_nonpos k_def)
  have "x / pow2 e = of_int (n * 2 ^ k)"
    by (simp add: p x_def)
  then have "round_half_even (x / pow2 e) = n * 2 ^ k"
    by (simp only: round_half_even_of_int)
  then have "float64_round x = of_int (n * 2 ^ k) * pow2 e"
    using x_pos by (simp add: float64_round_pos e_def)
  then show ?thesis
    by (simp add: p x_def)
qed

lemma float64_round_large:
  assumes "2 ^ 53 \<le> x"
  shows "2 ^ 53 \<le> float64_round x"
proof -
  define e where "e = float64_exponent x"
  have x_pos: "0 < x" using assms by (rule less_le_trans [rotated]) simp
  have bounds: "2 ^ 52 * pow2 e \<le> x" "x < 2 ^ 53 * pow2 e"
    using float64_exponent_bounds [OF x_pos] by (simp_all add: e_def)
  have e_ge: "1 \<le> e"
  proof (rule ccontr)
    assume "\<not> 1 \<le> e"
    then have "pow2 e \<le> 1" by (simp add: pow2_le_1)
    then have "2 ^ 53 * pow2 e \<le> 2 ^ 53" by simp
    then show False using bounds(2) assms by simp
  qed
  have p2: "2 \<le> pow2 e" using e_ge by (rule pow2_ge_2)
  have "of_int (2 ^ 52) \<le> x / pow2 e"
    using bounds(1) pow2_pos [of e] by (simp add: field_simps)
  then have "2 ^ 52 \<le> round_half_even (x / pow2 e)"
    by (rule round_half_even_ge)
  then have "(2::rat) ^ 52 \<le> of_int (round_half_even (x / pow2 e))"
    by simp
  then have "2 ^ 52 * 2 \<le> of_int (round_half_even (x / pow2 e)) * pow2 e"
    using p2 by (intro mult_mono) simp_all
  then show ?thesis
    using x_pos by (simp add: float64_round_pos e_def)
qed

lemma float64_quotient_small:
  assumes "0 < n" and "n < 2 ^ 53" and "0 < t" and "t < 2 ^ 53"
  shows "of_int (n div t) \<le> float64_round (of_int n / float64_round (of_int t))
         \<and> float64_round (of_int n / float64_round (of_int t)) < of_int (n div t) + 1"
proof -
  define q :: rat where "q = of_int n / of_int t"
  define p where "p = float64_round q"
  define k where "k = n div t"
  define r where "r = n mod t"
  have T: "float64_round (of_int t) = of_int t"
    using assms(3,4) by (simp add: float64_round_of_int)
  have t_pos: "0 < (of_int t :: rat)" using assms(3) by simp
  have q_pos: "0 < q" using assms(1) t_pos by (simp add: q_def)
  have r_bounds: "0 \<le> r" "r < t" using assms(3) by (simp_all add: r_def)
  have "n = k * t + r" by (simp add: k_def r_def)
  then have "(of_int n :: rat) = of_int k * of_int t + of_int r"
    by (simp flip: of_int_mult of_int_add)
  then have q_eq: "q = of_int k + of_int r / of_int t"
    using t_pos by (simp add: q_def field_simps)
  have k_bounds: "0 \<le> k" "k < 2 ^ 53"
  proof -
    show "0 \<le> k" using assms(1,3) by (simp add: k_def pos_imp_zdiv_nonneg_iff)
    then have "k * 1 \<le> k * t" using assms(3) by (intro mult_left_mono) simp_all
    moreover have "k * t \<le> n" using \<open>n = k * t + r\<close> r_bounds(1) by linarith
    ultimately show "k < 2 ^ 53" using assms(2) by linarith
  qed
  have "(of_int n :: rat) < 2 ^ 53" using assms(2) by simp
  then have "of_int n / 2 ^ 53 < (1::rat)" by simp
  then have "(of_int n / 2 ^ 53) / of_int t < 1 / (of_int t :: rat)"
    using t_pos by (simp only: divide_strict_right_mono)
  then have small: "q / 2 ^ 53 < 1 / of_int t"
    by (simp add: q_def)
  have err: "\<bar>p - q\<bar> \<le> q / 2 ^ 53"
    using float64_round_error [OF q_pos] by (simp add: p_def)
  have "of_int (r + 1) \<le> (of_int t :: rat)"
    using r_bounds(2) by (simp only: of_int_le_iff zless_imp_add1_zle)
  then have "(of_int r + 1) / of_int t \<le> (1::rat)"
    using t_pos by simp
  then have "of_int r / of_int t + 1 / of_int t \<le> (1::rat)"
    by (simp add: add_divide_distrib)
  then have upper: "p < of_int k + 1"
    using err small q_eq by linarith
  have lower: "of_int k \<le> p"
  proof (cases "r = 0")
    case True
    then have "q = of_int k" by (simp add: q_eq)
    then show ?thesis
      using k_bounds by (simp add: p_def float64_round_of_int)
  next
    case False
    then have "1 \<le> r" using r_bounds(1) by linarith
    then have "(1::rat) \<le> of_int r" by simp
    then have "1 / of_int t \<le> of_int r / (of_int t :: rat)"
      using t_pos by (simp only: divide_right_mono less_imp_le)
    then show ?thesis
      using err small q_eq by linarith
  qed
  show ?thesis
    using lower upper by (simp add: p_def q_def k_def T)
qed

lemma float64_quotient_large:
  assumes "0 < n" and "n < 2 ^ 53" and "2 ^ 53 \<le> t"
  shows "0 \<le> float64_round (of_int n / float64_round (of_int t))
         \<and> float64_round (of_int n / float64_round (of_int t)) < 1"
proof -
  define T where "T = float64_round (of_int t)"
  define q :: rat where "q = of_int n / T"
  define p where "p = float64_round q"
  have "(2::rat) ^ 53 \<le> of_int t" using assms(3) by simp
  then have T_ge: "2 ^ 53 \<le> T"
    unfolding T_def by (rule float64_round_large)
  then have T_pos: "0 < T" by (rule less_le_trans [rotated]) simp
  have n_pos: "0 < (of_int n :: rat)" using assms(1) by simp
  have q_pos: "0 < q" using n_pos T_pos by (simp add: q_def)
  have "n \<le> 2 ^ 53 - 1" using assms(2) by simp
  then have n_le: "(of_int n :: rat) \<le> 2 ^ 53 - 1"
    by (simp only: flip: of_int_le_iff [where 'a = rat]) simp
  have "q \<le> of_int n / 2 ^ 53"
    unfolding q_def using T_ge n_pos by (intro divide_left_mono) simp_all
  also have "\<dots> \<le> (2 ^ 53 - 1) / 2 ^ 53"
    using n_le by (simp only: divide_right_mono zero_le_power zero_le_numeral)
  finally have q_le: "q \<le> (2 ^ 53 - 1) / 2 ^ 53" .
  then have "q / 2 ^ 53 \<le> ((2 ^ 53 - 1) / 2 ^ 53) / 2 ^ 53"
    by (simp only: divide_right_mono zero_le_power zero_le_numeral)
  then have "q + q / 2 ^ 53 \<le> (2 ^ 53 - 1) / 2 ^ 53 + ((2 ^ 53 - 1) / 2 ^ 53) / 2 ^ 53"
    using q_le by (rule add_mono [rotated])
  also have "\<dots> < 1" by simp
  finally have bound: "q + q / 2 ^ 53 < 1" .
  have err: "\<bar>p - q\<bar> \<le> q / 2 ^ 53"
    using float64_round_error [OF q_pos] by (simp add: p_def)
  have "q / 2 ^ 53 \<le> q" using q_pos by simp
  then have "0 \<le> p" using err by linarith
  moreover have "p < 1" using err bound by linarith
  ultimately show ?thesis by (simp add: p_def q_def T_def)
qed

lemma truncate_nonneg: "0 \<le> x \<Longrightarrow> truncate x = \<lfloor>x\<rfloor>"
  by (simp add: truncate_def)

lemma percent_exact:
  assumes "0 \<le> sint part" and "sint part * 100 < 2 ^ 53" and "0 < sint all"
  shows "percent part all = Some (sint part * 100 div sint all)"
proof -
  define u where "u = sint part"
  define t where "t = sint all"
  define n where "n = u * 100"
  define p where "p = float64_round (of_int n / float64_round (of_int t))"
  have u_bounds: "0 \<le> u" "u < 2 ^ 53"
    using assms(1,2) by (simp_all add: u_def)
  have n_bounds: "0 \<le> n" "n < 2 ^ 53"
    using assms(1,2) by (simp_all add: n_def u_def)
  have t_pos: "0 < t" using assms(3) by (simp add: t_def)
  have fu: "float64_round (of_int u) = of_int u"
    using u_bounds by (rule float64_round_of_int)
  have "float64_round (of_int 100) = of_int 100"
    by (rule float64_round_of_int) simp_all
  then have f100: "float64_round 100 = 100" by simp
  have fn: "float64_round (of_int n) = of_int n"
    using n_bounds by (rule float64_round_of_int)
  have product: "float64_round (float64_round (of_int u) * float64_round 100) = of_int n"
    using fn by (simp add: fu f100 n_def)
  have pval: "0 \<le> p \<and> \<lfloor>p\<rfloor> = n div t"
  proof (cases "n = 0")
    case True
    then show ?thesis by (simp add: p_def float64_round_def)
  next
    case False
    then have n_pos: "0 < n" using n_bounds(1) by simp
    show ?thesis
    proof (cases "t < 2 ^ 53")
      case True
      have k: "0 \<le> n div t"
        using n_bounds(1) t_pos by (simp add: pos_imp_zdiv_nonneg_iff)
      have b: "of_int (n div t) \<le> p" "p < of_int (n div t) + 1"
        using float64_quotient_small [OF n_pos n_bounds(2) t_pos True] by (simp_all add: p_def)
      have "\<lfloor>p\<rfloor> = n div t"
        using b by (intro floor_unique) simp_all
      moreover have "(0::rat) \<le> of_int (n div t)" using k by simp
      ultimately show ?thesis using b(1) by linarith
    next
      case False
      then have large: "2 ^ 53 \<le> t" by simp
      have b: "0 \<le> p" "p < 1"
        using float64_quotient_large [OF n_pos n_bounds(2) large] by (simp_all add: p_def)
      have "\<lfloor>p\<rfloor> = 0"
        using b by (intro floor_unique) simp_all
      moreover have "n div t = 0"
        using n_bounds large by (intro div_pos_pos_trivial) simp_all
      ultimately show ?thesis using b(1) by simp
    qed
  qed
  then have tr: "truncate p = n div t"
    by (simp add: truncate_nonneg)
  have "0 \<le> n div t"
    using n_bounds(1) t_pos by (simp add: pos_imp_zdiv_nonneg_iff)
  moreover have "n div t \<le> n"
    using zdiv_mono2 [of n 1 t] n_bounds(1) t_pos by simp
  ultimately have range: "- (2 ^ 63) \<le> n div t \<and> n div t < 2 ^ 63"
    using n_bounds(2) by simp
  have "percent part all = (if - (2 ^ 63) \<le> truncate p \<and> truncate p < 2 ^ 63
                            then Some (truncate p) else None)"
    using t_pos product
    by (simp add: percent_def Let_def p_def u_def [symmetric] t_def [symmetric])
  then show ?thesis
    using tr range by (simp add: n_def u_def t_def)
qed

subsection \<open>The scaling engine\<close>

text \<open>
  Claim C3. For every desired size D and current replica count C: if D \<ge> C (as int32
  values) and the count of pods in state Ready differs from D, the engine sets the replica
  count of the statefulset to D, sets the phase to Scaling and writes the changed
  statefulset through the API; the error of that write, if any, is what the engine returns.
\<close>

theorem engine_scale_up:
  assumes "stsReplicas sts \<le>s NumPVs (Spec pvp)"
    and "countOf (CountByState newStatus) PvPodStatusReady \<noteq> NumPVs (Spec pvp)"
  shows "reconcilePvPoolStatefulset r pvp sts srv newStatus items h =
           (apiUpdateStatefulSet r, pvp, sts\<lparr>stsReplicas := NumPVs (Spec pvp)\<rparr>,
            newStatus\<lparr>Phase := PvPoolPhaseScaling\<rparr>,
            h @ [UpdateStatefulSet (sts\<lparr>stsReplicas := NumPVs (Spec pvp)\<rparr>)])"
  using assms by (simp add: reconcilePvPoolStatefulset_def Let_def)

theorem engine_scale_up_witness:
  "reconcilePvPoolStatefulset envScaleUp (examplePool 4 initialStatus) (exampleSts 0)
     (newServiceForPvPool (examplePool 4 initialStatus)) initialStatus [] [] =
   (None, examplePool 4 initialStatus, exampleSts 4,
    initialStatus\<lparr>Phase := PvPoolPhaseScaling\<rparr>, [UpdateStatefulSet (exampleSts 4)])"
proof -
  have le: "stsReplicas (exampleSts 0) \<le>s NumPVs (Spec (examplePool 4 initialStatus))"
    by (simp add: example_defs word_sle_eq)
  have ne: "countOf (CountByState initialStatus) PvPodStatusReady
              \<noteq> NumPVs (Spec (examplePool 4 initialStatus))"
    by (simp add: example_defs countOf_def)
  show ?thesis
    using engine_scale_up [OF le ne, of envScaleUp
        "newServiceForPvPool (examplePool 4 initialStatus)" "[]" "[]"]
    by (simp add: example_defs)
qed

text \<open>
  Claim C8. When the replica count equals the desired size and the count of Ready pods
  equals the desired size, the engine sets the phase to Ready and makes no call at all: the
  trace is the one it was given, so there is no write to the statefulset and no
  decommission call.
\<close>

theorem engine_converged:
  assumes "stsReplicas sts = NumPVs (Spec pvp)"
    and "countOf (CountByState newStatus) PvPodStatusReady = NumPVs (Spec pvp)"
  shows "reconcilePvPoolStatefulset r pvp sts srv newStatus items h =
           (None, pvp, sts, newStatus\<lparr>Phase := PvPoolPhaseReady\<rparr>, h)"
  using assms by (simp add: reconcilePvPoolStatefulset_def Let_def)

theorem engine_converged_witness:
  "CountByState statusAllReady PvPodStatusReady = Some 4
   \<and> reconcilePvPoolStatefulset envAllReady (examplePool 4 initialStatus) (exampleSts 4)
       (newServiceForPvPool (examplePool 4 initialStatus)) statusAllReady pods4 [] =
     (None, examplePool 4 initialStatus, exampleSts 4,
      statusAllReady\<lparr>Phase := PvPoolPhaseReady\<rparr>, [])"
proof -
  have counted: "CountByState statusAllReady PvPodStatusReady = Some 4"
    by (simp add: statusAllReady_def example_defs code_defs percent_5_10)
  have eq: "stsReplicas (exampleSts 4) = NumPVs (Spec (examplePool 4 initialStatus))"
    by (simp add: example_defs)
  have ready: "countOf (CountByState statusAllReady) PvPodStatusReady
                 = NumPVs (Spec (examplePool 4 initialStatus))"
    by (simp add: countOf_def counted) (simp add: example_defs)
  show ?thesis
    using engine_converged [OF eq ready, of envAllReady
        "newServiceForPvPool (examplePool 4 initialStatus)" pods4 "[]"] counted
    by simp
qed




text \<open>
  Claim C2. With desired size 2, four replicas and the pods at ordinals 2 and 3 in state
  Unknown, both pods receive the decommission call, and both calls succeed, but their
  entries in the status of the pass still read Unknown: the loop that should mark them
  assigns to a copy of each entry, and the entries it walks are those of the status stored
  in the pool object, which stay as they were as well.
\<close>

theorem scale_down_status_not_marked:
  "map PodStatus (PodsInfo (fst (reconcilePvPool envScaleDown poolScaleDown [])))
     = [''Ready'', ''Ready'', ''Unknown'', ''Unknown'']
   \<and> decommissionCalls (snd (snd (reconcilePvPool envScaleDown poolScaleDown [])))
     = [''http://p-sts-2.p-srv.ns.svc:8080/manage-agent/decommission'',
        ''http://p-sts-3.p-srv.ns.svc:8080/manage-agent/decommission'']
   \<and> fst (decommissionRequiredPods envScaleDown poolScaleDown (exampleSts 4) [] pods4) = None
   \<and> map PodStatus (PodsInfo (Status (fst (snd
         (decommissionRequiredPods envScaleDown poolScaleDown (exampleSts 4) [] pods4)))))
     = [''Ready'', ''Ready'', ''Unknown'', ''Unknown'']"
  by (simp add: example_defs code_defs ordinals percent_5_10 markDecommissioned_unchanged)

text \<open>
  Claim C5. With desired size 4, four replicas and three pods Ready, the phase becomes
  Scaling, but the pass takes the first branch of the engine and writes the statefulset,
  with its replica count unchanged.
\<close>

theorem equal_replicas_not_ready_writes:
  "stsReplicas (exampleSts 4) = NumPVs (Spec (examplePool 4 initialStatus))
   \<and> countOf (CountByState (fst (reconcilePvPool envThreeReady (examplePool 4 initialStatus) [])))
        PvPodStatusReady = 3
   \<and> Phase (fst (reconcilePvPool envThreeReady (examplePool 4 initialStatus) []))
       = PvPoolPhaseScaling
   \<and> statefulSetUpdates (snd (snd (reconcilePvPool envThreeReady (examplePool 4 initialStatus) [])))
       = [exampleSts 4]"
  by (simp add: example_defs code_defs percent_5_10)

subsection \<open>The reconcile pass\<close>




text \<open>
  Claim C6. On the same pass \<open>reconcilePvPool\<close> returns the transport error, and
  \<open>Reconcile\<close> schedules the retry after 3 seconds but returns no error.
\<close>

theorem reconcile_drops_error:
  "apiGetPvPool envUnreachable = Inr (examplePool 2 storedReady2)
   \<and> fst (snd (reconcilePvPool envUnreachable (examplePool 2 storedReady2) [GetPvPool]))
       = Some TransportError
   \<and> fst (Reconcile envUnreachable []) = (\<lparr>RequeueAfter = 3 * Second\<rparr>, None)"
  by (simp add: Reconcile_def DeepEqual_ptr_struct_def requeueWithError_def
      example_defs code_defs percent_5_10)

subsection \<open>The count by state\<close>

text \<open>
  Claim C9. After a successful collection over a list of fewer than \<open>2^31\<close> pods (the
  counters are int32), started from the empty status: the status holds one entry per pod, in
  the order of the list and under the name of the pod; the keys of the count-by-state mapping
  are exactly the states of these entries; the counter of every state is the number of
  entries with that state; and the counters add up to the number of pods. When every agent
  answers the status request with \<open>rep pod\<close>, the state of the entry of a pod is the state
  its agent reported.
\<close>

theorem count_by_state_partitions:
  assumes "collectPodsStatus r initialStatus h items = (None, st, h')"
    and "length items < 2 ^ 31"
  shows "map PodName (PodsInfo st) = map podName items
         \<and> dom (CountByState st) = set (map PodStatus (PodsInfo st))
         \<and> (\<forall>k. sint (countOf (CountByState st) k)
                  = int (count_list (map PodStatus (PodsInfo st)) k))
         \<and> (\<Sum>k \<in> dom (CountByState st). sint (countOf (CountByState st) k))
             = int (length items)
         \<and> ((\<forall>h pod. pod \<in> set items \<longrightarrow>
                agentGet r h (podURL pod @ ''/status'') = Response 200 (Some (rep pod)))
             \<longrightarrow> map PodStatus (PodsInfo st) = map (\<lambda>pod. State (rep pod)) items)"
proof -
  from collectPodsStatus_success [OF assms(1)] obtain states where
    len: "length states = length items"
    and infos: "PodsInfo st =
           map (\<lambda>(pod, s). \<lparr>PodName = podName pod, PodStatus = s\<rparr>) (zip items states)"
    and counts: "CountByState st = foldl increment Map.empty states"
    by (auto simp add: initialStatus_def)
  have "map PodName (PodsInfo st) = map podName (map fst (zip items states))"
    by (simp add: infos case_prod_beta comp_def)
  then have names: "map PodName (PodsInfo st) = map podName items"
    using len by simp
  have "map PodStatus (PodsInfo st) = map snd (zip items states)"
    by (simp add: infos case_prod_beta comp_def)
  then have states: "map PodStatus (PodsInfo st) = states"
    using len by simp
  have dom_eq: "dom (CountByState st) = set states"
    by (simp add: counts dom_foldl_increment)
  have count: "sint (countOf (CountByState st) k) = int (count_list states k)" for k
  proof -
    have "count_list states k \<le> length states" by (rule count_le_length)
    then have "count_list states k < 2 ^ 31" using len assms(2) by simp
    then have "sint (of_nat (count_list states k) :: int32) = int (count_list states k)"
      by (rule sint_of_nat_int32)
    then show ?thesis
      by (simp add: counts countOf_foldl_increment countOf_empty)
  qed
  have total: "(\<Sum>k \<in> dom (CountByState st). sint (countOf (CountByState st) k))
                 = int (length items)"
  proof -
    have "(\<Sum>k \<in> set states. int (count_list states k)) = int (sum (count_list states) (set states))"
      by simp
    also have "\<dots> = int (length states)"
      by (simp add: sum_count_set)
    finally show ?thesis by (simp add: dom_eq count len)
  qed
  have reported: "map PodStatus (PodsInfo st) = map (\<lambda>pod. State (rep pod)) items"
    if "\<forall>h pod. pod \<in> set items \<longrightarrow>
          agentGet r h (podURL pod @ ''/status'') = Response 200 (Some (rep pod))"
  proof -
    have "PodsInfo (fst (snd (collectPodsStatus r initialStatus h items))) =
            PodsInfo initialStatus @
            map (\<lambda>pod. \<lparr>PodName = podName pod, PodStatus = State (rep pod)\<rparr>) items"
      using collectPodsStatus_answers [of items r rep initialStatus h] that by simp
    then have "PodsInfo st =
            map (\<lambda>pod. \<lparr>PodName = podName pod, PodStatus = State (rep pod)\<rparr>) items"
      by (simp add: assms(1)) (simp add: initialStatus_def)
    then show ?thesis
      by (simp add: comp_def)
  qed
  show ?thesis
    using names states dom_eq count total reported by simp
qed

theorem count_by_state_partitions_witness:
  "fst (collectPodsStatus envThreeReady initialStatus [] pods4) = None
   \<and> length pods4 < 2 ^ 31
   \<and> dom (CountByState (fst (snd (collectPodsStatus envThreeReady initialStatus [] pods4))))
       = {''Ready'', ''Unknown''}
   \<and> sint (countOf (CountByState (fst (snd (collectPodsStatus envThreeReady initialStatus []
        pods4)))) ''Ready'') = 3
   \<and> sint (countOf (CountByState (fst (snd (collectPodsStatus envThreeReady initialStatus []
        pods4)))) ''Unknown'') = 1
   \<and> (\<Sum>k \<in> dom (CountByState (fst (snd (collectPodsStatus envThreeReady initialStatus []
          pods4)))).
         sint (countOf (CountByState (fst (snd (collectPodsStatus envThreeReady initialStatus []
           pods4)))) k)) = 4"
proof -
  let ?run = "collectPodsStatus envThreeReady initialStatus [] pods4"
  have ok: "fst ?run = None"
    by (simp add: example_defs code_defs percent_5_10)
  have len: "length pods4 < 2 ^ 31"
    by (simp add: pods4_def)
  have get: "\<forall>h pod. pod \<in> set pods4 \<longrightarrow>
      agentGet envThreeReady h (podURL pod @ ''/status'')
        = Response 200 (Some (statesThreeReady pod))"
    by (simp add: pods4_def envThreeReady_def exampleEnv_def examplePod_def getPodURL_def)
  have run: "?run = (None, fst (snd ?run), snd (snd ?run))"
    using ok by (simp add: prod_eq_iff)
  have states: "map (\<lambda>pod. State (statesThreeReady pod)) pods4
                  = [''Ready'', ''Ready'', ''Ready'', ''Unknown'']"
    by (simp add: example_defs PvPodStatusReady_def PvPodStatusUnknown_def)
  note inst = count_by_state_partitions [OF run len, of statesThreeReady]
  from inst get states
  have recorded: "map PodStatus (PodsInfo (fst (snd ?run)))
                    = [''Ready'', ''Ready'', ''Ready'', ''Unknown'']"
    by simp
  from inst have keys: "dom (CountByState (fst (snd ?run)))
                         = set (map PodStatus (PodsInfo (fst (snd ?run))))"
    by blast
  from inst have count: "sint (countOf (CountByState (fst (snd ?run))) k)
                          = int (count_list (map PodStatus (PodsInfo (fst (snd ?run)))) k)" for k
    by blast
  from inst have total: "(\<Sum>k \<in> dom (CountByState (fst (snd ?run))).
                           sint (countOf (CountByState (fst (snd ?run))) k))
                         = int (length pods4)"
    by blast
  have "dom (CountByState (fst (snd ?run))) = {''Ready'', ''Unknown''}"
    unfolding keys recorded by simp
  moreover have "sint (countOf (CountByState (fst (snd ?run))) ''Ready'') = 3"
    unfolding count recorded by simp
  moreover have "sint (countOf (CountByState (fst (snd ?run))) ''Unknown'') = 1"
    unfolding count recorded by simp
  moreover have "(\<Sum>k \<in> dom (CountByState (fst (snd ?run))).
                    sint (countOf (CountByState (fst (snd ?run))) k)) = 4"
    unfolding total by (simp add: pods4_def)
  ultimately show ?thesis
    using ok len by blast
qed

subsection \<open>Utilization\<close>

text \<open>
  Claim C7, as amended. For every agent report with \<open>0 \<le> used \<le> total\<close>, \<open>0 < total\<close> and
  \<open>used * 100 < 2^53\<close> (where the float64 product is exact), \<open>percent\<close> gives
  \<open>floor (used * 100 / total)\<close>, a value in \<open>[0, 100]\<close>. When every agent answers, the
  utilization in the status after a collection over a list that is not empty is the one
  computed from the report of the last pod of the list.
\<close>

theorem utilization_percentage:
  assumes "\<And>h pod. pod \<in> set items \<Longrightarrow>
             agentGet r h (podURL pod @ ''/status'') = Response 200 (Some (rep pod))"
    and "items \<noteq> []"
  shows "(\<forall>u t. 0 \<le> sint u \<and> sint u \<le> sint t \<and> 0 < sint t \<and> sint u * 100 < 2 ^ 53 \<longrightarrow>
            percent u t = Some (sint u * 100 div sint t)
            \<and> 0 \<le> sint u * 100 div sint t \<and> sint u * 100 div sint t \<le> 100)
         \<and> Used (fst (snd (collectPodsStatus r st h items)))
             = percent (agentUsed (rep (last items))) (Total (rep (last items)))"
proof -
  have range: "0 \<le> u * 100 div t \<and> u * 100 div t \<le> 100"
    if "0 \<le> u" "u \<le> t" "0 < t" for u t :: int
  proof -
    have "0 \<le> u * 100 div t"
      using that by (simp add: pos_imp_zdiv_nonneg_iff)
    moreover have "u * 100 div t \<le> t * 100 div t"
      using that by (intro zdiv_mono1) simp_all
    moreover have "t * 100 div t = 100"
      using that by simp
    ultimately show ?thesis by simp
  qed
  have "percent u t = Some (sint u * 100 div sint t)
        \<and> 0 \<le> sint u * 100 div sint t \<and> sint u * 100 div sint t \<le> 100"
    if "0 \<le> sint u \<and> sint u \<le> sint t \<and> 0 < sint t \<and> sint u * 100 < 2 ^ 53" for u t
    using that percent_exact [of u t] range [of "sint u" "sint t"] by simp
  moreover have "Used (fst (snd (collectPodsStatus r st h items)))
                   = percent (agentUsed (rep (last items))) (Total (rep (last items)))"
    using collectPodsStatus_used [of items r rep st h] assms by simp
  ultimately show ?thesis by blast
qed

theorem utilization_percentage_witness:
  "Used (fst (snd (collectPodsStatus envThreeReady initialStatus [] pods4))) = Some 50"
proof -
  have get: "\<And>h pod. pod \<in> set pods4 \<Longrightarrow>
      agentGet envThreeReady h (podURL pod @ ''/status'')
        = Response 200 (Some (statesThreeReady pod))"
    by (rule envThreeReady_answers)
  have ne: "pods4 \<noteq> []" by (simp add: pods4_def)
  note inst = utilization_percentage [of pods4 envThreeReady statesThreeReady initialStatus "[]",
      OF get ne]
  have last: "agentUsed (statesThreeReady (last pods4)) = 5"
             "Total (statesThreeReady (last pods4)) = 10"
    by (simp_all add: pods4_def statesThreeReady_def statesByName_def exampleAgent_def)
  from inst have computed: "\<And>u t.
      0 \<le> sint u \<and> sint u \<le> sint t \<and> 0 < sint t \<and> sint u * 100 < 2 ^ 53 \<Longrightarrow>
      percent u t = Some (sint u * 100 div sint t)"
    by blast
  have "percent 5 10 = Some (sint (5::int64) * 100 div sint (10::int64))"
    by (rule computed) simp
  moreover from inst have "Used (fst (snd (collectPodsStatus envThreeReady initialStatus [] pods4)))
      = percent 5 10"
    by (simp add: last)
  ultimately show ?thesis by simp
qed

text \<open>
  The claim as stated fails. There is no clamp: an agent that reports used 3 and total 2
  leaves the utilization 150 in the status. And \<open>floor\<close> is missed where float64 rounds:
  with used \<open>2^62 - 1\<close> and total \<open>2^62\<close> the result is 100, not 99.
\<close>

theorem utilization_out_of_range:
  "0 < sint (2::int64)
   \<and> fst (collectPodsStatus envOverfull initialStatus [] [examplePod ''0'']) = None
   \<and> Used (fst (snd (collectPodsStatus envOverfull initialStatus [] [examplePod ''0''])))
       = Some 150
   \<and> percent (2 ^ 62 - 1) (2 ^ 62) = Some 100
   \<and> ((2 ^ 62 - 1) * 100 div 2 ^ 62 = (99::int))"
proof -
  have "percent 3 2 = Some 150" by code_simp
  moreover have "percent (2 ^ 62 - 1) (2 ^ 62) = Some 100" by code_simp
  ultimately show ?thesis
    by (simp add: envOverfull_def example_defs code_defs)
qed

text \<open>
  Claim C10. \<open>percent\<close> has no guard on \<open>all\<close>: when the only agent of a pool reports
  total 0, the collection succeeds, the pass ends without error, and the utilization in the
  status that the pass writes is the conversion of a NaN, a value the language does not
  determine.
\<close>

theorem zero_total_reaches_division:
  "fst (snd (reconcilePvPool envZeroTotal (examplePool 1 initialStatus) [GetPvPool])) = None
   \<and> map Used (statusUpdates (snd (Reconcile envZeroTotal []))) = [None]
   \<and> fst (Reconcile envZeroTotal []) = requeueAfterSeconds 60"
  by (simp add: Reconcile_def DeepEqual_ptr_struct_def requeueWithError_def
      example_defs code_defs percent_zero_total)

end
